theory Spec2Isabelle
  imports Main "HOL-Library.AList"
begin

section \<open>Cells, rows and tables\<close>

text \<open>
  The program (\<^verbatim>\<open>src/task1_enrich.py\<close>) works on one pandas table. A cell of the
  table is a missing value (\<open>NaN\<close> is what \<^verbatim>\<open>read_csv\<close> and \<^verbatim>\<open>concat\<close> put in
  an empty place, \<open>NA\<close> is \<^verbatim>\<open>pd.NA\<close>, which \<^verbatim>\<open>mk_base_row\<close> writes), a string,
  an integer or a float. The program never computes with a float: it only
  stores one and prints it, so a float cell carries the text Python prints
  for it. Strings are taken to be ASCII, so that a \<open>char\<close> is a character of
  the Python string and \<^verbatim>\<open>\d\<close> is one of the ten digits.
\<close>

datatype cell = NaN | NA | Str string | Num int | Flt string

fun isna :: "cell \<Rightarrow> bool" where
  "isna NaN = True"
| "isna NA = True"
| "isna _ = False"

definition digit_chars :: "char list" where
  "digit_chars = ''0123456789''"

definition is_digit :: "char \<Rightarrow> bool" where
  "is_digit c = (c \<in> set digit_chars)"

text \<open>Decimal text of a natural number, and \<^verbatim>\<open>int()\<close> of a digit string.\<close>

definition digit_char :: "nat \<Rightarrow> char" where
  "digit_char d = digit_chars ! (d mod 10)"

fun digits_of :: "nat \<Rightarrow> string" where
  "digits_of n = (if n < 10 then [digit_char n] else digits_of (n div 10) @ [digit_char (n mod 10)])"

definition digit_val :: "char \<Rightarrow> nat" where
  "digit_val c = length (takeWhile (\<lambda>d. d \<noteq> c) digit_chars)"

definition int_of_digits :: "string \<Rightarrow> nat" where
  "int_of_digits ds = foldl (\<lambda>n c. 10 * n + digit_val c) 0 ds"

text \<open>\<^verbatim>\<open>str(x)\<close> and \<^verbatim>\<open>astype(str)\<close> of a cell.\<close>

fun py_str :: "cell \<Rightarrow> string" where
  "py_str NaN = ''nan''"
| "py_str NA = ''<NA>''"
| "py_str (Str s) = s"
| "py_str (Num i) = (if i < 0 then CHR ''-'' # digits_of (nat (- i)) else digits_of (nat i))"
| "py_str (Flt s) = s"

text \<open>
  A table is its column labels, in order, and its rows, in order. A row is
  read by column label. The program reads a row only in columns the table
  has, so what a row holds under another label is never seen: when \<^verbatim>\<open>concat\<close>
  makes the label a column, the rows that were there get \<open>NaN\<close> in it.
\<close>

type_synonym row = "string \<Rightarrow> cell"

record dataframe =
  columns :: "string list"
  rows :: "row list"

text \<open>
  A Python \<^verbatim>\<open>dict\<close> with string keys keeps insertion order: an association
  list. \<open>setitem\<close> is \<^verbatim>\<open>d[k] = v\<close>: the value of a key that is there is
  replaced in place, a new key goes to the end. \<open>getitem\<close> is \<^verbatim>\<open>d[k]\<close> for a
  key that is there, the only reads the program makes; for a key that is not
  there it is \<open>NaN\<close>, which is the cell of column \<open>k\<close> in the one-row table
  \<^verbatim>\<open>pd.DataFrame([d])\<close> after \<^verbatim>\<open>concat\<close>.
\<close>

type_synonym pydict = "(string \<times> cell) list"

definition setitem :: "string \<Rightarrow> cell \<Rightarrow> pydict \<Rightarrow> pydict" where
  "setitem k v d = AList.update k v d"

definition getitem :: "pydict \<Rightarrow> string \<Rightarrow> cell" where
  "getitem d k = (case map_of d k of Some v \<Rightarrow> v | None \<Rightarrow> NaN)"

section \<open>Constants of the module\<close>

definition COLLECTED_BY :: string where "COLLECTED_BY = ''AbbyGailErm''"
definition COLLECTION_DATE :: string where "COLLECTION_DATE = ''2026-02-03''"
definition ID_COL :: string where "ID_COL = ''record_id''"
definition DATE_COL :: string where "DATE_COL = ''observation_date''"

section \<open>mk_base_row and next_id\<close>

definition mk_base_row :: "string list \<Rightarrow> pydict" where
  "mk_base_row cols = foldl (\<lambda>d c. setitem c NA d) [] cols"

text \<open>
  The \<open>$\<close> of Python's \<^verbatim>\<open>re\<close> matches at the end of the string and also just
  before a newline that ends it.
\<close>

definition at_end :: "string \<Rightarrow> bool" where
  "at_end s = (s = [] \<or> s = [CHR 0x0A])"

text \<open>
  \<^verbatim>\<open>pat.match(x)\<close> for \<^verbatim>\<open>^PREFIX_(\d+)$\<close>, followed by \<^verbatim>\<open>int(m.group(1))\<close>: the
  prefix and the underscore literally, then the longest run of digits, which
  must be non-empty and reach the end.
\<close>

definition parse_id :: "string \<Rightarrow> string \<Rightarrow> nat option" where
  "parse_id prefix x =
     (let p = prefix @ ''_'' in
      if take (length p) x = p then
        (let r = drop (length p) x;
             ds = takeWhile is_digit r;
             tl = dropWhile is_digit r
         in if ds \<noteq> [] \<and> at_end tl then Some (int_of_digits ds) else None)
      else None)"

text \<open>\<^verbatim>\<open>f"{nxt:04d}"\<close>: the decimal text, filled with zeros on the left up to four characters.\<close>

definition fmt04d :: "nat \<Rightarrow> string" where
  "fmt04d n = replicate (4 - length (digits_of n)) (CHR ''0'') @ digits_of n"

definition id_nums :: "cell list \<Rightarrow> string \<Rightarrow> nat list" where
  "id_nums existing_ids prefix =
     List.map_filter (parse_id prefix) (map py_str (filter (\<lambda>c. \<not> isna c) existing_ids))"

definition next_id :: "cell list \<Rightarrow> string \<Rightarrow> string" where
  "next_id existing_ids prefix =
     (let nums = id_nums existing_ids prefix;
          nxt = (if nums \<noteq> [] then Max (set nums) + 1 else 1)
      in prefix @ ''_'' @ fmt04d nxt)"

text \<open>The number \<^verbatim>\<open>nxt\<close> that \<open>next_id\<close> prints.\<close>

definition next_num :: "cell list \<Rightarrow> string \<Rightarrow> nat" where
  "next_num existing_ids prefix =
     (if id_nums existing_ids prefix \<noteq> [] then Max (set (id_nums existing_ids prefix)) + 1 else 1)"

section \<open>fix_collector_fields\<close>

text \<open>
  \<^verbatim>\<open>str.match(r"^\d{4}-\d{2}-\d{2}$")\<close>: four digits, a hyphen, two digits, a
  hyphen, two digits, then the end of the string.
\<close>

definition date_like :: "string \<Rightarrow> bool" where
  "date_like s =
     (10 \<le> length s \<and> list_all is_digit (take 4 s) \<and> s ! 4 = CHR ''-'' \<and>
      list_all is_digit (take 2 (drop 5 s)) \<and> s ! 7 = CHR ''-'' \<and>
      list_all is_digit (take 2 (drop 8 s)) \<and> at_end (drop 10 s))"

text \<open>The mask of line 50, for one row.\<close>

definition fix_mask :: "row \<Rightarrow> bool" where
  "fix_mask r = (date_like (py_str (r ''collected_by'')) \<and> isna (r ''collection_date''))"

text \<open>The two assignments of lines 54 and 55, for one row.\<close>

definition fix_row :: "row \<Rightarrow> row" where
  "fix_row r =
     (if fix_mask r
      then (r(''collection_date'' := r ''collected_by''))(''collected_by'' := Str ''Example_Trainee'')
      else r)"

definition fix_collector_fields :: "dataframe \<Rightarrow> dataframe" where
  "fix_collector_fields df =
     (if ''collected_by'' \<notin> set (columns df) \<or> ''collection_date'' \<notin> set (columns df)
      then df
      else df\<lparr>rows := map fix_row (rows df)\<rparr>)"

section \<open>Appending a row\<close>

text \<open>
  \<^verbatim>\<open>pd.concat([df, pd.DataFrame([row])], ignore_index=True)\<close>: the columns of
  \<open>df\<close>, then the keys of the dictionary that are not columns yet, in the
  dictionary's order; the rows of \<open>df\<close>, empty in the new columns, then the
  new row, empty where the dictionary has no key. pandas may change how a
  number of an old column is stored; that is not modelled.
\<close>

definition concat_row :: "dataframe \<Rightarrow> pydict \<Rightarrow> dataframe" where
  "concat_row df d =
     \<lparr>columns = columns df @ filter (\<lambda>k. k \<notin> set (columns df)) (map fst d),
      rows = map (\<lambda>r c. if c \<in> set (columns df) then r c else NaN) (rows df) @ [getitem d]\<rparr>"

text \<open>A run of assignments \<^verbatim>\<open>row[k] = v\<close>, in order.\<close>

definition setitems :: "pydict \<Rightarrow> (string \<times> cell) list \<Rightarrow> pydict" where
  "setitems d kvs = foldl (\<lambda>d kv. setitem (fst kv) (snd kv) d) d kvs"

text \<open>The column \<^verbatim>\<open>df[ID_COL]\<close>.\<close>

definition ids :: "dataframe \<Rightarrow> cell list" where
  "ids df = map (\<lambda>r. r ID_COL) (rows df)"

text \<open>
  \<^verbatim>\<open>str(pd.to_datetime(event_date).year)\<close>; the program calls it on dates
  written \<^verbatim>\<open>YYYY-MM-DD\<close> only, where the year is the first four characters.
\<close>

definition year_text :: "string \<Rightarrow> string" where
  "year_text event_date = take 4 event_date"

text \<open>The keyword arguments of \<open>add_event\<close>.\<close>

record event_args =
  ev_indicator :: string
  ev_indicator_code :: string
  ev_category :: string
  ev_event_date :: string
  ev_source_name :: string
  ev_source_type :: string
  ev_source_url :: string
  ev_original_text :: string
  ev_confidence :: string
  ev_notes :: string

text \<open>The assignments of lines 74 to 98, in order.\<close>

definition event_overlay :: "string \<Rightarrow> event_args \<Rightarrow> (string \<times> cell) list" where
  "event_overlay new_id a =
     [(ID_COL, Str new_id),
      (''record_type'', Str ''event''),
      (''category'', Str (ev_category a)),
      (''pillar'', NA),
      (''indicator'', Str (ev_indicator a)),
      (''indicator_code'', Str (ev_indicator_code a)),
      (''value_text'', Str ''Occurred''),
      (''value_type'', Str ''categorical''),
      (DATE_COL, Str (ev_event_date a)),
      (''fiscal_year'', Str (year_text (ev_event_date a))),
      (''gender'', Str ''all''),
      (''location'', Str ''national''),
      (''region'', NA),
      (''source_name'', Str (ev_source_name a)),
      (''source_type'', Str (ev_source_type a)),
      (''source_url'', Str (ev_source_url a)),
      (''confidence'', Str (ev_confidence a)),
      (''collected_by'', Str COLLECTED_BY),
      (''collection_date'', Str COLLECTION_DATE),
      (''original_text'', Str (ev_original_text a)),
      (''notes'', Str (ev_notes a))]"

definition add_event :: "dataframe \<Rightarrow> string list \<Rightarrow> event_args \<Rightarrow> dataframe \<times> pydict" where
  "add_event df cols a =
     (let row = setitems (mk_base_row cols) (event_overlay (next_id (ids df) ''EVT'') a)
      in (concat_row df row, row))"

text \<open>
  The keyword arguments of \<open>add_impact_link\<close>. The magnitude is a float: the
  field is the text Python prints for it. The parent identifier is whatever
  cell the caller passes.
\<close>

record link_args =
  ln_parent_id :: cell
  ln_pillar :: string
  ln_related_indicator :: string
  ln_impact_direction :: string
  ln_impact_magnitude :: string
  ln_lag_months :: int
  ln_evidence_basis :: string
  ln_relationship_type :: string
  ln_comparable_country :: string
  ln_confidence :: string
  ln_notes :: string

text \<open>The assignments of lines 120 to 136, in order.\<close>

definition link_overlay :: "string \<Rightarrow> link_args \<Rightarrow> (string \<times> cell) list" where
  "link_overlay new_id a =
     [(ID_COL, Str new_id),
      (''record_type'', Str ''impact_link''),
      (''parent_id'', ln_parent_id a),
      (''pillar'', Str (ln_pillar a)),
      (''related_indicator'', Str (ln_related_indicator a)),
      (''relationship_type'', Str (ln_relationship_type a)),
      (''impact_direction'', Str (ln_impact_direction a)),
      (''impact_magnitude'', Flt (ln_impact_magnitude a)),
      (''lag_months'', Num (ln_lag_months a)),
      (''evidence_basis'', Str (ln_evidence_basis a)),
      (''comparable_country'', Str (ln_comparable_country a)),
      (''confidence'', Str (ln_confidence a)),
      (''collected_by'', Str COLLECTED_BY),
      (''collection_date'', Str COLLECTION_DATE),
      (''notes'', Str (if ln_notes a \<noteq> [] then ln_notes a
                       else ''Impact link added for event-augmented modeling; calibrate in Task 3.''))]"

definition add_impact_link :: "dataframe \<Rightarrow> string list \<Rightarrow> link_args \<Rightarrow> dataframe \<times> pydict" where
  "add_impact_link df cols a =
     (let row = setitems (mk_base_row cols) (link_overlay (next_id (ids df) ''LNK'') a)
      in (concat_row df row, row))"

section \<open>main\<close>

text \<open>
  The lookup of lines 159 to 165 and 201 to 207: the rows whose record type
  is \<^verbatim>\<open>event\<close> and whose indicator code is not missing, as a dictionary from
  indicator code to record identifier; of two rows with one code the later
  one stays.
\<close>

definition event_code_to_id :: "dataframe \<Rightarrow> (cell \<rightharpoonup> cell)" where
  "event_code_to_id df =
     map_of (rev (map (\<lambda>r. (r ''indicator_code'', r ID_COL))
       (filter (\<lambda>r. r ''record_type'' = Str ''event'' \<and> \<not> isna (r ''indicator_code'')) (rows df))))"

text \<open>
  The set of lines 210 to 216. \<^verbatim>\<open>existing_links.get(c, pd.Series(dtype=str))\<close>
  is an empty column when the table has no column \<open>c\<close>, and \<^verbatim>\<open>zip\<close> stops at
  the shorter column: the set is empty unless both columns are there.
\<close>

definition existing_link_keys :: "dataframe \<Rightarrow> (string \<times> string) set" where
  "existing_link_keys df =
     (if ''parent_id'' \<in> set (columns df) \<and> ''related_indicator'' \<in> set (columns df)
      then set (map (\<lambda>r. (py_str (r ''parent_id''), py_str (r ''related_indicator'')))
                 (filter (\<lambda>r. r ''record_type'' = Str ''impact_link'') (rows df)))
      else {})"

text \<open>
  \<open>maybe_add_link\<close> is a closure over the table \<open>df\<close>, which it replaces, and
  over \<open>cols\<close>, the lookup and the set of keys, which it only reads: the
  model takes the four as arguments and returns the table. The call of
  \<open>add_impact_link\<close> leaves the relationship type, the country, the
  confidence and the notes to their defaults.
\<close>

definition maybe_add_link ::
  "string list \<Rightarrow> (cell \<rightharpoonup> cell) \<Rightarrow> (string \<times> string) set \<Rightarrow> dataframe
   \<Rightarrow> string \<Rightarrow> string \<Rightarrow> string \<Rightarrow> string \<Rightarrow> string \<Rightarrow> int \<Rightarrow> string \<Rightarrow> dataframe" where
  "maybe_add_link cols lookup link_keys df parent_event_code pillar related_indicator
     impact_direction impact_magnitude lag_months evidence_basis =
     (case lookup (Str parent_event_code) of
        None \<Rightarrow> df
      | Some pid \<Rightarrow>
          if (py_str pid, related_indicator) \<in> link_keys then df
          else fst (add_impact_link df cols
                 \<lparr>ln_parent_id = pid,
                  ln_pillar = pillar,
                  ln_related_indicator = related_indicator,
                  ln_impact_direction = impact_direction,
                  ln_impact_magnitude = impact_magnitude,
                  ln_lag_months = lag_months,
                  ln_evidence_basis = evidence_basis,
                  ln_relationship_type = ''intervention'',
                  ln_comparable_country = ''Ethiopia'',
                  ln_confidence = ''medium'',
                  ln_notes = []\<rparr>))"

text \<open>
  Step 1 of \<open>main\<close> (lines 167 to 198): the two events, each added only if its
  code is not in the lookup, and then entered in the lookup. The arguments
  of the two calls of \<open>add_event\<close> come first.
\<close>

definition interop_crossover :: event_args where
  "interop_crossover =
     \<lparr>ev_indicator = ''Interoperable P2P transfers surpass ATM cash withdrawals'',
      ev_indicator_code = ''EVT_INTEROP_CROSSOVER'',
      ev_category = ''infrastructure'',
      ev_event_date = ''2024-01-01'',
      ev_source_name = ''(Add official source)'',
      ev_source_type = ''news'',
      ev_source_url = ''(ADD_URL)'',
      ev_original_text = ''Interoperable P2P digital transfers have surpassed ATM cash withdrawals.'',
      ev_confidence = ''low'',
      ev_notes = ''Replace (ADD_URL) and date with an official publication/press release.''\<rparr>"

definition fayda_rollout :: event_args where
  "fayda_rollout =
     \<lparr>ev_indicator = ''Fayda Digital ID rollout milestone'',
      ev_indicator_code = ''EVT_FAYDA_ROLLOUT'',
      ev_category = ''policy'',
      ev_event_date = ''2023-01-01'',
      ev_source_name = ''Fayda/NIDP'',
      ev_source_type = ''policy'',
      ev_source_url = ''https://www.id.gov.et/'',
      ev_original_text = ''Fayda digital ID program rollout (milestone date).'',
      ev_confidence = ''medium'',
      ev_notes = ''Replace with a verified milestone date/quote from id.gov.et once located.''\<rparr>"

definition add_missing_events ::
  "string list \<Rightarrow> dataframe \<times> (cell \<rightharpoonup> cell) \<Rightarrow> dataframe \<times> (cell \<rightharpoonup> cell)" where
  "add_missing_events cols s0 =
     (let s1 = (case s0 of (df, lookup) \<Rightarrow>
                  if lookup (Str ''EVT_INTEROP_CROSSOVER'') = None then
                    (case add_event df cols interop_crossover of (df2, evt) \<Rightarrow>
                       (df2, lookup(Str ''EVT_INTEROP_CROSSOVER'' \<mapsto> getitem evt ID_COL)))
                  else (df, lookup))
      in (case s1 of (df, lookup) \<Rightarrow>
            if lookup (Str ''EVT_FAYDA_ROLLOUT'') = None then
              (case add_event df cols fayda_rollout of (df2, evt) \<Rightarrow>
                 (df2, lookup(Str ''EVT_FAYDA_ROLLOUT'' \<mapsto> getitem evt ID_COL)))
            else (df, lookup)))"

text \<open>The five calls of lines 245 to 269, in order: the arguments of each.\<close>

type_synonym link_candidate = "string \<times> string \<times> string \<times> string \<times> string \<times> int \<times> string"

definition link_candidates :: "link_candidate list" where
  "link_candidates =
     [(''EVT_TELEBIRR'', ''ACCESS'', ''ACC_MM_ACCOUNT'', ''positive'', ''2.0'', 6,
       ''Telebirr launch expected to raise mobile money account ownership after onboarding/agent rollout lag.''),
      (''EVT_TELEBIRR'', ''USAGE'', ''USG_DIGITAL_PAYMENT'', ''positive'', ''3.0'', 6,
       ''Mobile money launch expands payment capability; lag reflects time for adoption and ecosystem growth.''),
      (''EVT_SAFARICOM'', ''USAGE'', ''USG_MPESA_USERS'', ''positive'', ''1.0'', 6,
       ''New operator entry increases distribution and product competition; effects realized after rollout.''),
      (''EVT_INTEROP_CROSSOVER'', ''USAGE'', ''USG_DIGITAL_PAYMENT'', ''positive'', ''2.0'', 0,
       ''Interoperability milestone indicates mainstreaming of digital P2P vs cash withdrawals.''),
      (''EVT_FAYDA_ROLLOUT'', ''ACCESS'', ''ACC_OWNERSHIP'', ''positive'', ''1.0'', 12,
       ''Digital ID reduces KYC barriers; expected gradual effect on formal account ownership.'')]"

definition call_maybe_add_link ::
  "string list \<Rightarrow> (cell \<rightharpoonup> cell) \<Rightarrow> (string \<times> string) set \<Rightarrow> dataframe \<Rightarrow> link_candidate \<Rightarrow> dataframe" where
  "call_maybe_add_link cols lookup link_keys df cand =
     (case cand of (code, pillar, related, direction, magnitude, lag, evidence) \<Rightarrow>
        maybe_add_link cols lookup link_keys df code pillar related direction magnitude lag evidence)"

text \<open>
  Step 2 of \<open>main\<close> (lines 200 to 269): the lookup and the set of keys are
  computed once, from the table as step 1 left it, and the five calls follow.
\<close>

definition add_missing_links :: "string list \<Rightarrow> dataframe \<Rightarrow> dataframe" where
  "add_missing_links cols df =
     (let lookup = event_code_to_id df;
          link_keys = existing_link_keys df
      in foldl (call_maybe_add_link cols lookup link_keys) df link_candidates)"

text \<open>Lines 149 and 156 to 269: what \<open>main\<close> does to a table that has the required columns.\<close>

definition enrich :: "dataframe \<Rightarrow> dataframe" where
  "enrich df0 =
     (let cols = columns df0;
          df = fix_collector_fields df0;
          s = add_missing_events cols (df, event_code_to_id df)
      in add_missing_links cols (fst s))"

definition required_columns :: "string list" where
  "required_columns = [ID_COL, ''record_type'', ''indicator_code'', DATE_COL]"

text \<open>The loop of lines 151 to 154: the first required column the table lacks.\<close>

definition missing_required :: "dataframe \<Rightarrow> string option" where
  "missing_required df = find (\<lambda>required. required \<notin> set (columns df)) required_columns"

definition RAW_PATH :: string where "RAW_PATH = ''data/raw/ethiopia_fi_unified_data.csv''"
definition OUT_PATH :: string where "OUT_PATH = ''data/processed/ethiopia_fi_unified_data_enriched.csv''"

text \<open>
  What the process sees and leaves: the table in the input file (\<open>None\<close> when
  there is no file; reading is taken to succeed when there is one), the table
  in the output file, whether the directory of the output exists, and what
  was printed. The summary is \<^verbatim>\<open>value_counts(dropna=False)\<close> of the record
  types: each value with the number of its rows; the order in which pandas
  prints the values is not modelled.
\<close>

datatype printed = Text string | Counts "(cell \<times> nat) list"

record world =
  raw_file :: "dataframe option"
  out_file :: "dataframe option"
  processed_dir :: bool
  stdout :: "printed list"
  stderr :: "string list"

definition record_type_counts :: "dataframe \<Rightarrow> (cell \<times> nat) list" where
  "record_type_counts df =
     (let col = map (\<lambda>r. r ''record_type'') (rows df)
      in map (\<lambda>v. (v, count_list col v)) (remdups col))"

definition ensure_dirs :: "world \<Rightarrow> world" where
  "ensure_dirs w = w\<lparr>processed_dir := True\<rparr>"

definition main :: "world \<Rightarrow> int \<times> world" where
  "main w0 =
     (let w = ensure_dirs w0 in
      case raw_file w of
        None \<Rightarrow> (2, w\<lparr>stderr := stderr w @ [''[ERROR] Raw dataset not found at: '' @ RAW_PATH]\<rparr>)
      | Some df0 \<Rightarrow>
          (case missing_required df0 of
             Some required \<Rightarrow>
               (2, w\<lparr>stderr := stderr w @ [''[ERROR] Missing required column: '' @ required]\<rparr>)
           | None \<Rightarrow>
               (let df = enrich df0
                in (0, w\<lparr>out_file := Some df,
                          stdout := stdout w @ [Text (''Wrote: '' @ OUT_PATH),
                                                Counts (record_type_counts df)]\<rparr>))))"

section \<open>Relations between tables\<close>

text \<open>The columns that \<open>add_event\<close> and \<open>add_impact_link\<close> write, in the order of the assignments.\<close>

definition event_fields :: "string list" where
  "event_fields =
     [''record_id'', ''record_type'', ''category'', ''pillar'', ''indicator'', ''indicator_code'',
      ''value_text'', ''value_type'', ''observation_date'', ''fiscal_year'', ''gender'',
      ''location'', ''region'', ''source_name'', ''source_type'', ''source_url'', ''confidence'',
      ''collected_by'', ''collection_date'', ''original_text'', ''notes'']"

definition link_fields :: "string list" where
  "link_fields =
     [''record_id'', ''record_type'', ''parent_id'', ''pillar'', ''related_indicator'',
      ''relationship_type'', ''impact_direction'', ''impact_magnitude'', ''lag_months'',
      ''evidence_basis'', ''comparable_country'', ''confidence'', ''collected_by'',
      ''collection_date'', ''notes'']"

text \<open>
  \<open>fresh_suffix old new\<close>: the list \<open>new\<close> is \<open>old\<close> followed by values that are
  pairwise distinct and not in \<open>old\<close>.
\<close>

definition fresh_suffix :: "cell list \<Rightarrow> cell list \<Rightarrow> bool" where
  "fresh_suffix old new =
     (length old \<le> length new \<and> take (length old) new = old \<and>
      distinct (drop (length old) new) \<and> set (drop (length old) new) \<inter> set old = {})"

text \<open>
  \<open>extends a b\<close>: the table \<open>b\<close> has the columns of \<open>a\<close> first, in order,
  followed by columns \<open>a\<close> does not have; it has the rows of \<open>a\<close> first, and
  they hold what they hold in \<open>a\<close>, but for cells outside the columns of
  \<open>a\<close>, which may have become \<open>NaN\<close>.
\<close>

definition extends :: "dataframe \<Rightarrow> dataframe \<Rightarrow> bool" where
  "extends a b =
     (length (columns a) \<le> length (columns b) \<and>
      take (length (columns a)) (columns b) = columns a \<and>
      set (drop (length (columns a)) (columns b)) \<inter> set (columns a) = {} \<and>
      length (rows a) \<le> length (rows b) \<and>
      (\<forall>i c. i < length (rows a) \<longrightarrow>
         (rows b ! i) c = (rows a ! i) c \<or> c \<notin> set (columns a) \<and> (rows b ! i) c = NaN))"

text \<open>
  \<open>settled df\<close>: the corrector has nothing to do on \<open>df\<close> and will have
  nothing to do when columns are added: a row whose collected-by value
  matches the date pattern has a collection date.
\<close>

definition settled :: "dataframe \<Rightarrow> bool" where
  "settled df =
     (\<forall>r\<in>set (rows df).
        ''collected_by'' \<in> set (columns df) \<and> date_like (py_str (r ''collected_by'')) \<longrightarrow>
        ''collection_date'' \<in> set (columns df) \<and> \<not> isna (r ''collection_date''))"

text \<open>
  \<open>built_row r\<close>: the row is an event that is empty outside the columns
  \<open>add_event\<close> writes, or an impact link that is empty outside the columns
  \<open>add_impact_link\<close> writes.
\<close>

definition built_row :: "row \<Rightarrow> bool" where
  "built_row r =
     (r ''record_type'' = Str ''event'' \<and> (\<forall>c. c \<notin> set event_fields \<longrightarrow> isna (r c)) \<or>
      r ''record_type'' = Str ''impact_link'' \<and> (\<forall>c. c \<notin> set link_fields \<longrightarrow> isna (r c)))"

text \<open>
  \<open>grows cols a b\<close>: what every step of \<open>main\<close> after the corrector keeps, from
  the table \<open>a\<close> before it to the table \<open>b\<close> after it, when rows are built
  over the columns \<open>cols\<close>. The required columns are there, the identifiers
  of \<open>b\<close> are those of \<open>a\<close> followed by fresh ones, \<open>b\<close> extends \<open>a\<close>, a new
  column is one of \<open>cols\<close> or one that a built row writes, no key of an
  impact link is lost, \<open>b\<close> is settled if \<open>a\<close> is, and the rows of \<open>b\<close> after
  those of \<open>a\<close> are built rows.
\<close>

definition grows :: "string list \<Rightarrow> dataframe \<Rightarrow> dataframe \<Rightarrow> bool" where
  "grows cols a b =
     (missing_required b = None \<and> fresh_suffix (ids a) (ids b) \<and> extends a b \<and>
      set (columns b) \<subseteq> set (columns a) \<union> set cols \<union> set event_fields \<union> set link_fields \<and>
      existing_link_keys a \<subseteq> existing_link_keys b \<and>
      (settled a \<longrightarrow> settled b) \<and>
      (\<forall>i. length (rows a) \<le> i \<and> i < length (rows b) \<longrightarrow> built_row (rows b ! i)))"

section \<open>Sample tables\<close>

text \<open>
  Small tables on which the theorems below are evaluated. In the first the
  collector and the collection date of the first row are swapped as in the
  data set; the second lacks the record type; the third has a collected-by
  column that holds a date and no collection-date column.
\<close>

definition sample_swapped :: dataframe where
  "sample_swapped =
     \<lparr>columns = [''record_id'', ''record_type'', ''indicator_code'', ''observation_date'',
                 ''collected_by'', ''collection_date''],
      rows = [(\<lambda>c. NaN)(''record_id'' := Str ''REC_0001'', ''record_type'' := Str ''observation'',
                 ''indicator_code'' := Str ''ACC_OWNERSHIP'', ''observation_date'' := Str ''2021-12-31'',
                 ''collected_by'' := Str ''2025-01-20''),
              (\<lambda>c. NaN)(''record_id'' := Str ''REC_0002'', ''record_type'' := Str ''observation'',
                 ''indicator_code'' := Str ''ACC_OWNERSHIP'', ''observation_date'' := Str ''2024-11-29'',
                 ''collected_by'' := Str ''2025-01-20'', ''collection_date'' := Str ''2025-01-21'')]\<rparr>"


definition sample_no_collection_date :: dataframe where
  "sample_no_collection_date =
     \<lparr>columns = [''record_id'', ''record_type'', ''indicator_code'', ''observation_date'', ''collected_by''],
      rows = [(\<lambda>c. NaN)(''record_id'' := Str ''EVT_0001'', ''record_type'' := Str ''event'',
                 ''indicator_code'' := Str ''EVT_TELEBIRR'', ''observation_date'' := Str ''2021-05-17'',
                 ''collected_by'' := Str ''2021-05-17'')]\<rparr>"

text \<open>A table in which the events of two candidate links share one record identifier.\<close>

definition sample_shared_id :: dataframe where
  "sample_shared_id =
     \<lparr>columns = [''record_id'', ''record_type'', ''indicator_code'', ''observation_date''],
      rows = [(\<lambda>c. NaN)(''record_id'' := Str ''EVT_0001'', ''record_type'' := Str ''event'',
                 ''indicator_code'' := Str ''EVT_TELEBIRR'', ''observation_date'' := Str ''2021-05-17''),
              (\<lambda>c. NaN)(''record_id'' := Str ''EVT_0001'', ''record_type'' := Str ''event'',
                 ''indicator_code'' := Str ''EVT_INTEROP_CROSSOVER'',
                 ''observation_date'' := Str ''2024-01-01'')]\<rparr>"


section \<open>Properties of next_id\<close>

declare digits_of.simps [simp del]

lemma digit_small:
  "d < 10 \<Longrightarrow> d = 0 \<or> d = 1 \<or> d = 2 \<or> d = 3 \<or> d = 4 \<or> d = 5 \<or> d = 6 \<or> d = 7 \<or> d = 8 \<or> d = (9::nat)"
  by arith

lemma is_digit_digit_char: "is_digit (digit_char d)"
proof -
  have "d mod 10 < 10" by simp
  from digit_small [OF this] show ?thesis
    by (auto simp: is_digit_def digit_char_def digit_chars_def)
qed

lemma digit_val_digit_char: "digit_val (digit_char d) = d mod 10"
proof -
  have "d mod 10 < 10" by simp
  from digit_small [OF this] show ?thesis
    by (auto simp: digit_val_def digit_char_def digit_chars_def)
qed

lemma int_of_digits_snoc: "int_of_digits (ds @ [c]) = 10 * int_of_digits ds + digit_val c"
  by (simp add: int_of_digits_def)

lemma digits_of_digits: "list_all is_digit (digits_of n)"
  by (induction n rule: digits_of.induct)
     (subst digits_of.simps, simp add: is_digit_digit_char)

lemma digits_of_nonempty: "digits_of n \<noteq> []"
  by (subst digits_of.simps) simp

lemma int_of_digits_of: "int_of_digits (digits_of n) = n"
proof (induction n rule: digits_of.induct)
  case (1 n)
  show ?case
  proof (cases "n < 10")
    case True
    then show ?thesis
      by (subst digits_of.simps) (simp add: int_of_digits_def digit_val_digit_char)
  next
    case False
    with 1 show ?thesis
      by (subst digits_of.simps) (simp add: int_of_digits_snoc digit_val_digit_char)
  qed
qed

lemma int_of_digits_zeros: "int_of_digits (replicate k (CHR ''0'') @ ds) = int_of_digits ds"
proof -
  have "foldl (\<lambda>n c. 10 * n + digit_val c) 0 (replicate k (CHR ''0'')) = 0"
  proof (induction k)
    case 0
    show ?case by simp
  next
    case (Suc k)
    have z: "digit_val (CHR ''0'') = 0" by (simp add: digit_val_def digit_chars_def)
    have "replicate (Suc k) (CHR ''0'') = replicate k (CHR ''0'') @ [CHR ''0'']"
      by (simp add: replicate_append_same)
    with Suc z show ?case by (simp del: replicate_Suc)
  qed
  then show ?thesis by (simp add: int_of_digits_def)
qed

lemma fmt04d_digits: "list_all is_digit (fmt04d n)"
proof -
  have "is_digit (CHR ''0'')" by (simp add: is_digit_def digit_chars_def)
  with digits_of_digits [of n] show ?thesis
    by (auto simp: fmt04d_def list_all_iff)
qed

lemma fmt04d_nonempty: "fmt04d n \<noteq> []"
  by (simp add: fmt04d_def digits_of_nonempty)

lemma fmt04d_value: "int_of_digits (fmt04d n) = n"
  by (simp add: fmt04d_def int_of_digits_zeros int_of_digits_of)


lemma parse_id_digits:
  assumes "list_all is_digit ds" "ds \<noteq> []"
  shows "parse_id prefix (prefix @ ''_'' @ ds) = Some (int_of_digits ds)"
proof -
  have tw: "takeWhile is_digit ds = ds" and dw: "dropWhile is_digit ds = []"
    using assms(1) by (simp_all add: list_all_iff)
  have "parse_id prefix (prefix @ ''_'' @ ds) =
      (if takeWhile is_digit ds \<noteq> [] \<and> at_end (dropWhile is_digit ds)
       then Some (int_of_digits (takeWhile is_digit ds)) else None)"
    by (simp add: parse_id_def Let_def)
  also have "\<dots> = Some (int_of_digits ds)"
    unfolding tw dw using assms(2) by (simp add: at_end_def)
  finally show ?thesis .
qed

lemma parse_id_fmt04d: "parse_id prefix (prefix @ CHR ''_'' # fmt04d n) = Some n"
  using parse_id_digits [of "fmt04d n" prefix] fmt04d_digits [of n] fmt04d_nonempty [of n]
  by (simp add: fmt04d_value)

lemma set_id_nums:
  "set (id_nums S P) = {n. \<exists>c. c \<in> set S \<and> \<not> isna c \<and> parse_id P (py_str c) = Some n}"
  by (auto simp: id_nums_def List.map_filter_def) force

lemma next_id_next_num: "next_id S P = P @ ''_'' @ fmt04d (next_num S P)"
  by (simp add: next_id_def next_num_def Let_def)

lemma next_num_greater: "n \<in> set (id_nums S P) \<Longrightarrow> n < next_num S P"
proof -
  assume a: "n \<in> set (id_nums S P)"
  then have "id_nums S P \<noteq> []" by auto
  moreover from a have "n \<le> Max (set (id_nums S P))" by simp
  ultimately show ?thesis by (simp add: next_num_def)
qed

lemma next_id_not_str:
  assumes "c \<in> set S" "\<not> isna c"
  shows "py_str c \<noteq> next_id S P"
proof
  assume "py_str c = next_id S P"
  then have "parse_id P (py_str c) = Some (next_num S P)"
    by (simp add: next_id_next_num parse_id_fmt04d)
  with assms have "next_num S P \<in> set (id_nums S P)"
    by (auto simp: set_id_nums)
  from next_num_greater [OF this] show False by simp
qed

lemma next_id_fresh: "Str (next_id S P) \<notin> set S"
  using next_id_not_str [of "Str (next_id S P)" S P] by auto




section \<open>Properties of fix_collector_fields, maybe_add_link and main\<close>

lemma not_date_like_placeholder: "\<not> date_like ''Example_Trainee''"
  by (simp add: date_like_def is_digit_def digit_chars_def)

lemma fix_row_changes: "fix_row r \<noteq> r \<longleftrightarrow> fix_mask r"
proof
  assume "fix_row r \<noteq> r"
  then show "fix_mask r" by (auto simp: fix_row_def split: if_splits)
next
  assume m: "fix_mask r"
  then have "r ''collected_by'' \<noteq> Str ''Example_Trainee''"
    using not_date_like_placeholder by (auto simp: fix_mask_def)
  moreover from m have "fix_row r ''collected_by'' = Str ''Example_Trainee''"
    by (simp add: fix_row_def)
  ultimately show "fix_row r \<noteq> r" by metis
qed


lemma fix_rows_nth:
  "''collected_by'' \<in> set (columns df) \<Longrightarrow> ''collection_date'' \<in> set (columns df) \<Longrightarrow>
   i < length (rows df) \<Longrightarrow> rows (fix_collector_fields df) ! i = fix_row (rows df ! i)"
  by (simp add: fix_collector_fields_def)

lemma fix_columns [simp]: "columns (fix_collector_fields df) = columns df"
  by (simp add: fix_collector_fields_def)

lemma fix_length [simp]: "length (rows (fix_collector_fields df)) = length (rows df)"
  by (simp add: fix_collector_fields_def)

text \<open>
  C3. In a table that has both columns, the corrector changes a row exactly
  when its collected-by value matches \<^verbatim>\<open>^\d{4}-\d{2}-\d{2}$\<close> and its collection
  date is missing. When it does, the collection date becomes the old
  collected-by value and collected-by becomes \<^verbatim>\<open>Example_Trainee\<close>. A row whose
  collection date is not missing is left as it is.
\<close>

theorem fix_collector_fields_fires_iff:
  assumes "''collected_by'' \<in> set (columns df)" and "''collection_date'' \<in> set (columns df)"
    and "i < length (rows df)"
  shows "(rows (fix_collector_fields df) ! i \<noteq> rows df ! i \<longleftrightarrow>
            date_like (py_str ((rows df ! i) ''collected_by'')) \<and> isna ((rows df ! i) ''collection_date''))
       \<and> (date_like (py_str ((rows df ! i) ''collected_by'')) \<and> isna ((rows df ! i) ''collection_date'') \<longrightarrow>
            (rows (fix_collector_fields df) ! i) ''collection_date'' = (rows df ! i) ''collected_by'' \<and>
            (rows (fix_collector_fields df) ! i) ''collected_by'' = Str ''Example_Trainee'')
       \<and> (\<not> isna ((rows df ! i) ''collection_date'') \<longrightarrow>
            rows (fix_collector_fields df) ! i = rows df ! i)"
proof -
  let ?r = "rows df ! i"
  have eq: "rows (fix_collector_fields df) ! i = fix_row ?r"
    using assms by (rule fix_rows_nth)
  have 1: "fix_row ?r \<noteq> ?r \<longleftrightarrow> date_like (py_str (?r ''collected_by'')) \<and> isna (?r ''collection_date'')"
    using fix_row_changes [of ?r] by (simp add: fix_mask_def)
  have 2: "date_like (py_str (?r ''collected_by'')) \<and> isna (?r ''collection_date'') \<longrightarrow>
      fix_row ?r ''collection_date'' = ?r ''collected_by'' \<and> fix_row ?r ''collected_by'' = Str ''Example_Trainee''"
    by (simp add: fix_row_def fix_mask_def)
  have 3: "\<not> isna (?r ''collection_date'') \<longrightarrow> fix_row ?r = ?r"
    by (simp add: fix_row_def fix_mask_def)
  show ?thesis unfolding eq using 1 2 3 by blast
qed

lemma date_like_sample: "date_like ''2025-01-20''"
  by (simp add: date_like_def is_digit_def digit_chars_def at_end_def)

theorem fix_collector_fields_fires_iff_witness:
  "''collected_by'' \<in> set (columns sample_swapped) \<and> ''collection_date'' \<in> set (columns sample_swapped)
   \<and> 0 < length (rows sample_swapped)
   \<and> rows (fix_collector_fields sample_swapped) ! 0 \<noteq> rows sample_swapped ! 0
   \<and> (rows (fix_collector_fields sample_swapped) ! 0) ''collection_date'' = Str ''2025-01-20''
   \<and> (rows (fix_collector_fields sample_swapped) ! 0) ''collected_by'' = Str ''Example_Trainee''
   \<and> rows (fix_collector_fields sample_swapped) ! 1 = rows sample_swapped ! 1"
  using fix_collector_fields_fires_iff [of sample_swapped 0]
        fix_collector_fields_fires_iff [of sample_swapped 1] date_like_sample
  by (simp add: sample_swapped_def)

text \<open>
  C9. The corrector keeps the number of rows and the columns. It leaves every
  cell outside the columns collected-by and collection-date as it is, and
  leaves a whole row as it is unless the table has both columns, the row's
  collected-by value matches the date pattern and its collection date is
  missing.
\<close>

theorem fix_collector_fields_frame:
  "length (rows (fix_collector_fields df)) = length (rows df)
   \<and> columns (fix_collector_fields df) = columns df
   \<and> (\<forall>i c. i < length (rows df) \<and> c \<noteq> ''collected_by'' \<and> c \<noteq> ''collection_date'' \<longrightarrow>
         (rows (fix_collector_fields df) ! i) c = (rows df ! i) c)
   \<and> (\<forall>i. i < length (rows df) \<and>
            \<not> (''collected_by'' \<in> set (columns df) \<and> ''collection_date'' \<in> set (columns df) \<and>
               date_like (py_str ((rows df ! i) ''collected_by'')) \<and> isna ((rows df ! i) ''collection_date'')) \<longrightarrow>
         rows (fix_collector_fields df) ! i = rows df ! i)"
  by (auto simp: fix_collector_fields_def fix_row_def fix_mask_def)

theorem fix_collector_fields_frame_witness:
  "length (rows (fix_collector_fields sample_swapped)) = 2
   \<and> columns (fix_collector_fields sample_swapped) = columns sample_swapped
   \<and> (rows (fix_collector_fields sample_swapped) ! 0) ''record_id'' = Str ''REC_0001''
   \<and> (rows (fix_collector_fields sample_swapped) ! 0) ''observation_date'' = Str ''2021-12-31''
   \<and> rows (fix_collector_fields sample_swapped) ! 1 = rows sample_swapped ! 1"
proof -
  have a: "\<not> isna ((rows sample_swapped ! 1) ''collection_date'')"
    by (simp add: sample_swapped_def)
  have b: "(rows sample_swapped ! 0) ''record_id'' = Str ''REC_0001''"
     "(rows sample_swapped ! 0) ''observation_date'' = Str ''2021-12-31''"
     "length (rows sample_swapped) = 2"
    by (simp_all add: sample_swapped_def)
  from fix_collector_fields_frame [of sample_swapped] have
    f1: "length (rows (fix_collector_fields sample_swapped)) = length (rows sample_swapped)" and
    f2: "columns (fix_collector_fields sample_swapped) = columns sample_swapped" and
    f3: "\<And>i c. i < length (rows sample_swapped) \<Longrightarrow> c \<noteq> ''collected_by'' \<Longrightarrow> c \<noteq> ''collection_date'' \<Longrightarrow>
         (rows (fix_collector_fields sample_swapped) ! i) c = (rows sample_swapped ! i) c" and
    f4: "\<And>i. i < length (rows sample_swapped) \<Longrightarrow> 
            \<not> (''collected_by'' \<in> set (columns sample_swapped) \<and> ''collection_date'' \<in> set (columns sample_swapped) \<and>
               date_like (py_str ((rows sample_swapped ! i) ''collected_by'')) \<and> isna ((rows sample_swapped ! i) ''collection_date'')) \<Longrightarrow>
         rows (fix_collector_fields sample_swapped) ! i = rows sample_swapped ! i"
    by blast+
  show ?thesis
    using f1 f2 f3 [of 0 "''record_id''"] f3 [of 0 "''observation_date''"] f4 [of 1] a b
    by simp
qed

text \<open>
  C4. A candidate link whose parent event code is not in the lookup is skipped:
  \<open>maybe_add_link\<close> returns the table it was given, whatever the set of keys
  holds. The function is total, so nothing is raised.
\<close>

theorem maybe_add_link_absent_parent:
  "lookup (Str parent_event_code) = None \<Longrightarrow>
   maybe_add_link cols lookup link_keys df parent_event_code pillar related_indicator
     impact_direction impact_magnitude lag_months evidence_basis = df"
  by (simp add: maybe_add_link_def)

lemma missing_required_None:
  "missing_required df = None \<longleftrightarrow>
   ''record_id'' \<in> set (columns df) \<and> ''record_type'' \<in> set (columns df) \<and>
   ''indicator_code'' \<in> set (columns df) \<and> ''observation_date'' \<in> set (columns df)"
  by (auto simp: missing_required_def required_columns_def ID_COL_def DATE_COL_def find_None_iff)




text \<open>
  C10. When the table lacks the collected-by column or the collection-date
  column, the corrector returns it unchanged, the run goes on from the
  unchanged table, and with the required columns present \<open>main\<close> returns 0 and
  writes the output.
\<close>

theorem fix_collector_fields_missing_column:
  assumes "''collected_by'' \<notin> set (columns df) \<or> ''collection_date'' \<notin> set (columns df)"
  shows "fix_collector_fields df = df
   \<and> enrich df = add_missing_links (columns df)
                   (fst (add_missing_events (columns df) (df, event_code_to_id df)))
   \<and> (raw_file w = Some df \<and> missing_required df = None \<longrightarrow>
        fst (main w) = 0 \<and> out_file (snd (main w)) = Some (enrich df))"
proof -
  from assms have f: "fix_collector_fields df = df"
    by (auto simp: fix_collector_fields_def)
  then have "enrich df = add_missing_links (columns df)
                   (fst (add_missing_events (columns df) (df, event_code_to_id df)))"
    by (simp add: enrich_def Let_def)
  with f show ?thesis
    by (simp add: main_def ensure_dirs_def Let_def)
qed

theorem fix_collector_fields_missing_column_witness:
  "fix_collector_fields sample_no_collection_date = sample_no_collection_date
   \<and> fst (main \<lparr>raw_file = Some sample_no_collection_date, out_file = None,
              processed_dir = False, stdout = [], stderr = []\<rparr>) = 0
   \<and> out_file (snd (main \<lparr>raw_file = Some sample_no_collection_date, out_file = None,
              processed_dir = False, stdout = [], stderr = []\<rparr>)) = Some (enrich sample_no_collection_date)"
proof -
  have a: "''collected_by'' \<notin> set (columns sample_no_collection_date) \<or> ''collection_date'' \<notin> set (columns sample_no_collection_date)"
    by (simp add: sample_no_collection_date_def)
  have m: "missing_required sample_no_collection_date = None"
    by (simp add: missing_required_def required_columns_def sample_no_collection_date_def ID_COL_def DATE_COL_def)
  show ?thesis
    using fix_collector_fields_missing_column [OF a,
        of "\<lparr>raw_file = Some sample_no_collection_date, out_file = None,
              processed_dir = False, stdout = [], stderr = []\<rparr>"] m
    by simp
qed

theorem maybe_add_link_absent_parent_witness:
  "maybe_add_link (columns sample_no_collection_date) (event_code_to_id sample_no_collection_date) {} sample_no_collection_date
     ''EVT_SAFARICOM'' ''USAGE'' ''USG_MPESA_USERS'' ''positive'' ''1.0'' 6 ''evidence'' = sample_no_collection_date
   \<and> maybe_add_link (columns sample_no_collection_date) (event_code_to_id sample_no_collection_date) UNIV sample_no_collection_date
     ''EVT_SAFARICOM'' ''USAGE'' ''USG_MPESA_USERS'' ''positive'' ''1.0'' 6 ''evidence'' = sample_no_collection_date"
proof -
  have "event_code_to_id sample_no_collection_date (Str ''EVT_SAFARICOM'') = None"
    by (simp add: event_code_to_id_def sample_no_collection_date_def)
  then show ?thesis
    using maybe_add_link_absent_parent by simp
qed
section \<open>Dictionaries and built rows\<close>

lemma map_of_setitems: "map_of (setitems d kvs) = map_of d ++ map_of (rev kvs)"
proof (induction kvs arbitrary: d)
  case Nil
  show ?case by (simp add: setitems_def)
next
  case (Cons kv kvs)
  have "setitems d (kv # kvs) = setitems (setitem (fst kv) (snd kv) d) kvs"
    by (simp add: setitems_def)
  then have "map_of (setitems d (kv # kvs)) = map_of (setitem (fst kv) (snd kv) d) ++ map_of (rev kvs)"
    by (simp add: Cons.IH)
  also have "\<dots> = map_of d ++ map_of (rev (kv # kvs))"
    by (cases kv) (auto simp: setitem_def update_conv' fun_eq_iff map_add_def split: option.splits)
  finally show ?case .
qed

lemma getitem_setitems:
  "getitem (setitems d kvs) k = (case map_of (rev kvs) k of Some v \<Rightarrow> v | None \<Rightarrow> getitem d k)"
  by (simp add: getitem_def map_of_setitems map_add_def split: option.splits)

lemma keys_setitems: "fst ` set (setitems d kvs) = fst ` set d \<union> fst ` set kvs"
proof -
  have "dom (map_of (setitems d kvs)) = dom (map_of d) \<union> dom (map_of (rev kvs))"
    by (simp add: map_of_setitems Un_commute)
  then show ?thesis by (simp add: dom_map_of_conv_image_fst)
qed

lemma mk_base_row_setitems: "mk_base_row cols = setitems [] (map (\<lambda>c. (c, NA)) cols)"
proof -
  have "foldl (\<lambda>d c. setitem c NA d) d cols = setitems d (map (\<lambda>c. (c, NA)) cols)" for d
    by (induction cols arbitrary: d) (simp_all add: setitems_def)
  then show ?thesis by (simp add: mk_base_row_def)
qed

lemma keys_mk_base_row: "fst ` set (mk_base_row cols) = set cols"
  by (simp add: mk_base_row_setitems keys_setitems image_image)

lemma getitem_mk_base_row: "getitem (mk_base_row cols) k = (if k \<in> set cols then NA else NaN)"
proof -
  have "map_of (rev (map (\<lambda>c. (c, NA)) cols)) k = (if k \<in> set cols then Some NA else None)"
    by (induction cols) (auto simp: map_add_def split: option.splits)
  then show ?thesis
    by (simp add: mk_base_row_setitems getitem_setitems) (simp add: getitem_def)
qed

text \<open>What a built row holds in a column that the overlay does not write.\<close>

lemma getitem_built_other:
  "k \<notin> fst ` set kvs \<Longrightarrow>
   getitem (setitems (mk_base_row cols) kvs) k = (if k \<in> set cols then NA else NaN)"
proof -
  assume "k \<notin> fst ` set kvs"
  then have "map_of (rev kvs) k = None"
    by (simp add: map_of_eq_None_iff)
  then show ?thesis by (simp add: getitem_setitems getitem_mk_base_row)
qed

lemma keys_built: "fst ` set (setitems (mk_base_row cols) kvs) = set cols \<union> fst ` set kvs"
  by (simp add: keys_setitems keys_mk_base_row)

section \<open>Appending a row: what is kept\<close>

lemma columns_concat_row:
  "columns (concat_row df d) = columns df @ filter (\<lambda>k. k \<notin> set (columns df)) (map fst d)"
  by (simp add: concat_row_def)

lemma rows_concat_row:
  "rows (concat_row df d) =
   map (\<lambda>r c. if c \<in> set (columns df) then r c else NaN) (rows df) @ [getitem d]"
  by (simp add: concat_row_def)

lemma set_columns_concat_row: "set (columns (concat_row df d)) = set (columns df) \<union> fst ` set d"
  by (auto simp: columns_concat_row)

lemma missing_required_concat_row:
  "missing_required df = None \<Longrightarrow> missing_required (concat_row df d) = None"
  by (simp add: missing_required_None set_columns_concat_row)

lemma column_concat_row:
  "c \<in> set (columns df) \<Longrightarrow>
   map (\<lambda>r. r c) (rows (concat_row df d)) = map (\<lambda>r. r c) (rows df) @ [getitem d c]"
  by (simp add: rows_concat_row)

lemma ids_concat_row:
  "ID_COL \<in> set (columns df) \<Longrightarrow> ids (concat_row df d) = ids df @ [getitem d ID_COL]"
  by (simp add: ids_def column_concat_row)

lemma event_code_to_id_concat_row:
  assumes "''record_type'' \<in> set (columns df)" "''indicator_code'' \<in> set (columns df)"
    "ID_COL \<in> set (columns df)"
  shows "event_code_to_id (concat_row df d) =
     (if getitem d ''record_type'' = Str ''event'' \<and> \<not> isna (getitem d ''indicator_code'')
      then (event_code_to_id df)(getitem d ''indicator_code'' \<mapsto> getitem d ID_COL)
      else event_code_to_id df)"
proof -
  let ?m = "\<lambda>r c. if c \<in> set (columns df) then r c else NaN"
  let ?P = "\<lambda>r::row. r ''record_type'' = Str ''event'' \<and> \<not> isna (r ''indicator_code'')"
  let ?kv = "\<lambda>r::row. (r ''indicator_code'', r ID_COL)"
  have "map ?kv (filter ?P (map ?m (rows df))) = map ?kv (filter ?P (rows df))"
    using assms by (induction "rows df") (auto simp: filter_map o_def)
  then show ?thesis
    by (simp add: event_code_to_id_def rows_concat_row)
qed

lemma existing_link_keys_concat_row:
  assumes "''record_type'' \<in> set (columns df)"
  shows "existing_link_keys df \<subseteq> existing_link_keys (concat_row df d)"
proof (cases "''parent_id'' \<in> set (columns df) \<and> ''related_indicator'' \<in> set (columns df)")
  case False
  then show ?thesis by (auto simp: existing_link_keys_def)
next
  case True
  let ?m = "\<lambda>r c. if c \<in> set (columns df) then r c else NaN"
  let ?P = "\<lambda>r::row. r ''record_type'' = Str ''impact_link''"
  let ?key = "\<lambda>r::row. (py_str (r ''parent_id''), py_str (r ''related_indicator''))"
  have "map ?key (filter ?P (map ?m (rows df))) = map ?key (filter ?P (rows df))"
    using assms True by (induction "rows df") (auto simp: filter_map o_def)
  then have "set (map ?key (filter ?P (rows df))) \<subseteq>
             set (map ?key (filter ?P (rows (concat_row df d))))"
    by (simp add: rows_concat_row del: set_map map_map)
  with True show ?thesis
    by (simp add: existing_link_keys_def set_columns_concat_row del: set_map)
qed

lemma existing_link_keys_new:
  assumes "getitem d ''record_type'' = Str ''impact_link''"
    and "''parent_id'' \<in> fst ` set d" and "''related_indicator'' \<in> fst ` set d"
  shows "(py_str (getitem d ''parent_id''), py_str (getitem d ''related_indicator''))
         \<in> existing_link_keys (concat_row df d)"
  using assms
  by (simp add: existing_link_keys_def rows_concat_row set_columns_concat_row)

section \<open>Fresh suffixes and extensions\<close>

lemma fresh_suffixI:
  "new = old @ xs \<Longrightarrow> distinct xs \<Longrightarrow> set xs \<inter> set old = {} \<Longrightarrow> fresh_suffix old new"
  by (simp add: fresh_suffix_def)

lemma fresh_suffixE:
  assumes "fresh_suffix old new"
  obtains xs where "new = old @ xs" "distinct xs" "set xs \<inter> set old = {}"
proof -
  from assms have "new = old @ drop (length old) new"
    by (metis append_take_drop_id fresh_suffix_def)
  with assms show ?thesis
    using that [of "drop (length old) new"] by (simp add: fresh_suffix_def)
qed

lemma fresh_suffix_refl: "fresh_suffix xs xs"
  by (simp add: fresh_suffix_def)

lemma fresh_suffix_trans:
  assumes "fresh_suffix a b" "fresh_suffix b c"
  shows "fresh_suffix a c"
proof -
  from assms(1) obtain xs where b: "b = a @ xs" "distinct xs" "set xs \<inter> set a = {}"
    by (rule fresh_suffixE)
  from assms(2) obtain ys where c: "c = b @ ys" "distinct ys" "set ys \<inter> set b = {}"
    by (rule fresh_suffixE)
  from b c have "c = a @ (xs @ ys)" "distinct (xs @ ys)" "set (xs @ ys) \<inter> set a = {}"
    by auto
  then show ?thesis by (rule fresh_suffixI)
qed

lemma fresh_suffix_next_id: "fresh_suffix S (S @ [Str (next_id S P)])"
  using next_id_fresh [of S P] by (simp add: fresh_suffix_def)

lemma fresh_suffix_distinct: "fresh_suffix old new \<Longrightarrow> distinct old \<Longrightarrow> distinct new"
  by (erule fresh_suffixE) auto

lemma extendsI:
  assumes "columns b = columns a @ extra" "set extra \<inter> set (columns a) = {}"
    "length (rows a) \<le> length (rows b)"
    "\<And>i c. i < length (rows a) \<Longrightarrow>
       (rows b ! i) c = (rows a ! i) c \<or> c \<notin> set (columns a) \<and> (rows b ! i) c = NaN"
  shows "extends a b"
  using assms by (simp add: extends_def)

lemma extendsE:
  assumes "extends a b"
  obtains extra where "columns b = columns a @ extra" "set extra \<inter> set (columns a) = {}"
    "length (rows a) \<le> length (rows b)"
    "\<And>i c. i < length (rows a) \<Longrightarrow>
       (rows b ! i) c = (rows a ! i) c \<or> c \<notin> set (columns a) \<and> (rows b ! i) c = NaN"
proof -
  from assms have "columns b = columns a @ drop (length (columns a)) (columns b)"
    by (metis append_take_drop_id extends_def)
  with assms show ?thesis
    using that [of "drop (length (columns a)) (columns b)"] by (simp add: extends_def)
qed

lemma extends_refl: "extends a a"
  by (simp add: extends_def)

lemma extends_trans:
  assumes "extends a b" "extends b c"
  shows "extends a c"
proof -
  from assms(1) obtain e1 where ab: "columns b = columns a @ e1" "set e1 \<inter> set (columns a) = {}"
    "length (rows a) \<le> length (rows b)"
    "\<And>i c. i < length (rows a) \<Longrightarrow>
       (rows b ! i) c = (rows a ! i) c \<or> c \<notin> set (columns a) \<and> (rows b ! i) c = NaN"
    by (rule extendsE) blast
  from assms(2) obtain e2 where bc: "columns c = columns b @ e2" "set e2 \<inter> set (columns b) = {}"
    "length (rows b) \<le> length (rows c)"
    "\<And>i k. i < length (rows b) \<Longrightarrow>
       (rows c ! i) k = (rows b ! i) k \<or> k \<notin> set (columns b) \<and> (rows c ! i) k = NaN"
    by (rule extendsE) blast
  show ?thesis
  proof (rule extendsI)
    show "columns c = columns a @ (e1 @ e2)" using ab(1) bc(1) by simp
    show "set (e1 @ e2) \<inter> set (columns a) = {}" using ab(1,2) bc(2) by auto
    show "length (rows a) \<le> length (rows c)" using ab(3) bc(3) by simp
    fix i k assume i: "i < length (rows a)"
    then have "i < length (rows b)" using ab(3) by simp
    from bc(4) [OF this, of k] ab(4) [OF i, of k] ab(1)
    show "(rows c ! i) k = (rows a ! i) k \<or> k \<notin> set (columns a) \<and> (rows c ! i) k = NaN"
      by auto
  qed
qed

lemma extends_concat_row: "extends df (concat_row df d)"
proof (rule extendsI)
  show "columns (concat_row df d) = columns df @ filter (\<lambda>k. k \<notin> set (columns df)) (map fst d)"
    by (rule columns_concat_row)
  show "set (filter (\<lambda>k. k \<notin> set (columns df)) (map fst d)) \<inter> set (columns df) = {}"
    by auto
  show "length (rows df) \<le> length (rows (concat_row df d))"
    by (simp add: rows_concat_row)
  fix i c assume "i < length (rows df)"
  then show "(rows (concat_row df d) ! i) c = (rows df ! i) c \<or>
             c \<notin> set (columns df) \<and> (rows (concat_row df d) ! i) c = NaN"
    by (simp add: rows_concat_row nth_append)
qed


lemma extends_cell:
  "extends a b \<Longrightarrow> i < length (rows a) \<Longrightarrow> c \<in> set (columns a) \<Longrightarrow>
   (rows b ! i) c = (rows a ! i) c"
  by (auto simp: extends_def)

lemma extends_isna:
  assumes "extends a b" and "i < length (rows a)" and "isna ((rows a ! i) c)"
  shows "isna ((rows b ! i) c)"
proof -
  from assms(1,2) have "(rows b ! i) c = (rows a ! i) c \<or> (rows b ! i) c = NaN"
    by (auto simp: extends_def)
  with assms(3) show ?thesis by auto
qed

section \<open>One call of add_event or add_impact_link\<close>

lemma fields_event_overlay: "map fst (event_overlay i a) = event_fields"
  by (simp add: event_overlay_def event_fields_def ID_COL_def DATE_COL_def)

lemma fields_link_overlay: "map fst (link_overlay i a) = link_fields"
  by (simp add: link_overlay_def link_fields_def ID_COL_def)

lemma keys_event_overlay: "fst ` set (event_overlay i a) = set event_fields"
  using arg_cong [OF fields_event_overlay [of i a], of set] by simp

lemma keys_link_overlay: "fst ` set (link_overlay i a) = set link_fields"
  using arg_cong [OF fields_link_overlay [of i a], of set] by simp

lemma add_event_fst: "fst (add_event df cols a) = concat_row df (snd (add_event df cols a))"
  by (simp add: add_event_def Let_def)

lemma add_event_snd:
  "snd (add_event df cols a) = setitems (mk_base_row cols) (event_overlay (next_id (ids df) ''EVT'') a)"
  by (simp add: add_event_def Let_def)

lemma event_row_cells:
  "getitem (snd (add_event df cols a)) ''record_type'' = Str ''event''"
  "getitem (snd (add_event df cols a)) ''indicator_code'' = Str (ev_indicator_code a)"
  "getitem (snd (add_event df cols a)) ID_COL = Str (next_id (ids df) ''EVT'')"
  "getitem (snd (add_event df cols a)) ''collected_by'' = Str COLLECTED_BY"
  by (simp_all add: add_event_snd getitem_setitems event_overlay_def ID_COL_def DATE_COL_def)

lemma event_row_keys: "fst ` set (snd (add_event df cols a)) = set cols \<union> set event_fields"
  by (simp add: add_event_snd keys_built keys_event_overlay)

lemma event_row_other:
  "k \<notin> set event_fields \<Longrightarrow>
   getitem (snd (add_event df cols a)) k = (if k \<in> set cols then NA else NaN)"
  unfolding add_event_snd
  by (rule getitem_built_other) (simp add: keys_event_overlay)

lemma add_impact_link_fst:
  "fst (add_impact_link df cols a) = concat_row df (snd (add_impact_link df cols a))"
  by (simp add: add_impact_link_def Let_def)

lemma add_impact_link_snd:
  "snd (add_impact_link df cols a) =
   setitems (mk_base_row cols) (link_overlay (next_id (ids df) ''LNK'') a)"
  by (simp add: add_impact_link_def Let_def)

lemma link_row_cells:
  "getitem (snd (add_impact_link df cols a)) ''record_type'' = Str ''impact_link''"
  "getitem (snd (add_impact_link df cols a)) ''parent_id'' = ln_parent_id a"
  "getitem (snd (add_impact_link df cols a)) ''related_indicator'' = Str (ln_related_indicator a)"
  "getitem (snd (add_impact_link df cols a)) ID_COL = Str (next_id (ids df) ''LNK'')"
  "getitem (snd (add_impact_link df cols a)) ''collected_by'' = Str COLLECTED_BY"
  by (simp_all add: add_impact_link_snd getitem_setitems link_overlay_def ID_COL_def)

lemma link_row_keys: "fst ` set (snd (add_impact_link df cols a)) = set cols \<union> set link_fields"
  by (simp add: add_impact_link_snd keys_built keys_link_overlay)

lemma link_row_other:
  "k \<notin> set link_fields \<Longrightarrow>
   getitem (snd (add_impact_link df cols a)) k = (if k \<in> set cols then NA else NaN)"
  unfolding add_impact_link_snd
  by (rule getitem_built_other) (simp add: keys_link_overlay)

lemma required_in_columns:
  assumes "missing_required df = None"
  shows "ID_COL \<in> set (columns df)" "''record_type'' \<in> set (columns df)"
    "''indicator_code'' \<in> set (columns df)"
  using assms by (simp_all add: missing_required_None ID_COL_def)

text \<open>One call of \<open>add_event\<close> on a table that has the required columns.\<close>

lemma add_event_step:
  assumes "missing_required df = None"
  shows "missing_required (fst (add_event df cols a)) = None"
    and "ids (fst (add_event df cols a)) = ids df @ [Str (next_id (ids df) ''EVT'')]"
    and "event_code_to_id (fst (add_event df cols a)) =
           (event_code_to_id df)(Str (ev_indicator_code a) \<mapsto> Str (next_id (ids df) ''EVT''))"
    and "extends df (fst (add_event df cols a))"
    and "set (columns (fst (add_event df cols a))) = set (columns df) \<union> set cols \<union> set event_fields"
    and "existing_link_keys df \<subseteq> existing_link_keys (fst (add_event df cols a))"
    and "length (rows (fst (add_event df cols a))) = Suc (length (rows df))"
proof -
  note req = required_in_columns [OF assms]
  show "missing_required (fst (add_event df cols a)) = None"
    using assms by (simp add: add_event_fst missing_required_concat_row)
  show "ids (fst (add_event df cols a)) = ids df @ [Str (next_id (ids df) ''EVT'')]"
    using req(1) by (simp add: add_event_fst ids_concat_row event_row_cells)
  show "event_code_to_id (fst (add_event df cols a)) =
           (event_code_to_id df)(Str (ev_indicator_code a) \<mapsto> Str (next_id (ids df) ''EVT''))"
    using req by (simp add: add_event_fst event_code_to_id_concat_row event_row_cells)
  show "extends df (fst (add_event df cols a))"
    by (simp add: add_event_fst extends_concat_row)
  show "set (columns (fst (add_event df cols a))) = set (columns df) \<union> set cols \<union> set event_fields"
    by (simp add: add_event_fst set_columns_concat_row event_row_keys Un_assoc)
  show "existing_link_keys df \<subseteq> existing_link_keys (fst (add_event df cols a))"
    using req(2) by (simp add: add_event_fst existing_link_keys_concat_row)
  show "length (rows (fst (add_event df cols a))) = Suc (length (rows df))"
    by (simp add: add_event_fst rows_concat_row)
qed

text \<open>One call of \<open>add_impact_link\<close> on a table that has the required columns.\<close>

lemma add_impact_link_step:
  assumes "missing_required df = None"
  shows "missing_required (fst (add_impact_link df cols a)) = None"
    and "ids (fst (add_impact_link df cols a)) = ids df @ [Str (next_id (ids df) ''LNK'')]"
    and "event_code_to_id (fst (add_impact_link df cols a)) = event_code_to_id df"
    and "extends df (fst (add_impact_link df cols a))"
    and "set (columns (fst (add_impact_link df cols a))) =
           set (columns df) \<union> set cols \<union> set link_fields"
    and "existing_link_keys df \<subseteq> existing_link_keys (fst (add_impact_link df cols a))"
    and "(py_str (ln_parent_id a), ln_related_indicator a)
           \<in> existing_link_keys (fst (add_impact_link df cols a))"
    and "length (rows (fst (add_impact_link df cols a))) = Suc (length (rows df))"
proof -
  note req = required_in_columns [OF assms]
  show "missing_required (fst (add_impact_link df cols a)) = None"
    using assms by (simp add: add_impact_link_fst missing_required_concat_row)
  show "ids (fst (add_impact_link df cols a)) = ids df @ [Str (next_id (ids df) ''LNK'')]"
    using req(1) by (simp add: add_impact_link_fst ids_concat_row link_row_cells)
  show "event_code_to_id (fst (add_impact_link df cols a)) = event_code_to_id df"
    using req by (simp add: add_impact_link_fst event_code_to_id_concat_row link_row_cells)
  show "extends df (fst (add_impact_link df cols a))"
    by (simp add: add_impact_link_fst extends_concat_row)
  show "set (columns (fst (add_impact_link df cols a))) =
           set (columns df) \<union> set cols \<union> set link_fields"
    by (simp add: add_impact_link_fst set_columns_concat_row link_row_keys Un_assoc)
  show "existing_link_keys df \<subseteq> existing_link_keys (fst (add_impact_link df cols a))"
    using req(2) by (simp add: add_impact_link_fst existing_link_keys_concat_row)
  have "''parent_id'' \<in> fst ` set (snd (add_impact_link df cols a))"
       "''related_indicator'' \<in> fst ` set (snd (add_impact_link df cols a))"
    by (simp_all add: link_row_keys link_fields_def)
  from existing_link_keys_new [OF link_row_cells(1) this, of df]
  show "(py_str (ln_parent_id a), ln_related_indicator a)
           \<in> existing_link_keys (fst (add_impact_link df cols a))"
    by (simp add: add_impact_link_fst link_row_cells)
  show "length (rows (fst (add_impact_link df cols a))) = Suc (length (rows df))"
    by (simp add: add_impact_link_fst rows_concat_row)
qed

section \<open>The steps of main\<close>

lemma not_date_like_collector: "\<not> date_like COLLECTED_BY"
  by (simp add: date_like_def COLLECTED_BY_def is_digit_def digit_chars_def)

lemma settled_concat_row:
  assumes "settled df" and "\<not> date_like (py_str (getitem d ''collected_by''))"
  shows "settled (concat_row df d)"
  unfolding settled_def
proof (intro ballI impI)
  fix r
  assume r: "r \<in> set (rows (concat_row df d))"
    and c: "''collected_by'' \<in> set (columns (concat_row df d)) \<and> date_like (py_str (r ''collected_by''))"
  from r consider "r = getitem d"
    | r0 where "r0 \<in> set (rows df)" "r = (\<lambda>c. if c \<in> set (columns df) then r0 c else NaN)"
    by (auto simp: rows_concat_row)
  then show "''collection_date'' \<in> set (columns (concat_row df d)) \<and> \<not> isna (r ''collection_date'')"
  proof cases
    case 1
    with c assms(2) show ?thesis by simp
  next
    case 2
    have nan: "\<not> date_like (py_str NaN)"
      by (simp add: date_like_def)
    from c 2(2) nan have in_df: "''collected_by'' \<in> set (columns df)"
      by (auto split: if_splits)
    with c 2(2) have "date_like (py_str (r0 ''collected_by''))" by simp
    with assms(1) 2(1) in_df have "''collection_date'' \<in> set (columns df) \<and> \<not> isna (r0 ''collection_date'')"
      by (auto simp: settled_def)
    with 2(2) show ?thesis by (simp add: set_columns_concat_row)
  qed
qed



lemma built_row_event: "built_row (getitem (snd (add_event df cols a)))"
  by (simp add: built_row_def event_row_cells event_row_other)

lemma built_row_link: "built_row (getitem (snd (add_impact_link df cols a)))"
  by (simp add: built_row_def link_row_cells link_row_other)

lemma extends_built_row:
  assumes "extends b c" and "missing_required b = None" and "i < length (rows b)"
    and "built_row (rows b ! i)"
  shows "built_row (rows c ! i)"
proof -
  from assms(2) have "''record_type'' \<in> set (columns b)"
    by (rule required_in_columns)
  with assms(1,3) have rt: "(rows c ! i) ''record_type'' = (rows b ! i) ''record_type''"
    by (rule extends_cell)
  have na: "isna ((rows b ! i) k) \<Longrightarrow> isna ((rows c ! i) k)" for k
    using assms(1,3) by (rule extends_isna)
  from assms(4) show ?thesis
    unfolding built_row_def rt using na by blast
qed

lemma grows_refl: "missing_required a = None \<Longrightarrow> grows cols a a"
  by (auto simp: grows_def fresh_suffix_refl extends_refl)

lemma grows_required: "grows cols a b \<Longrightarrow> missing_required b = None"
  by (simp add: grows_def)

lemma grows_trans:
  assumes "grows cols a b" "grows cols b c"
  shows "grows cols a c"
proof -
  from assms have "fresh_suffix (ids a) (ids c)"
    by (auto simp: grows_def intro: fresh_suffix_trans)
  moreover from assms have "extends a c"
    by (auto simp: grows_def intro: extends_trans)
  moreover from assms have
    "set (columns c) \<subseteq> set (columns a) \<union> set cols \<union> set event_fields \<union> set link_fields"
    unfolding grows_def by blast
  moreover from assms have "existing_link_keys a \<subseteq> existing_link_keys c"
    unfolding grows_def by blast
  moreover from assms have "settled a \<longrightarrow> settled c"
    unfolding grows_def by blast
  moreover have "built_row (rows c ! i)" if i: "length (rows a) \<le> i" "i < length (rows c)" for i
  proof (cases "i < length (rows b)")
    case True
    with assms(1) i(1) have "built_row (rows b ! i)" by (simp add: grows_def)
    with assms True show ?thesis
      by (auto simp: grows_def intro: extends_built_row)
  next
    case False
    with assms(2) i(2) show ?thesis by (simp add: grows_def)
  qed
  ultimately show ?thesis using assms(2) by (simp add: grows_def)
qed

lemma grows_concat_row:
  assumes "missing_required df = None" and "built_row (getitem d)"
    and "getitem d ID_COL = Str (next_id (ids df) P)"
    and "\<not> date_like (py_str (getitem d ''collected_by''))"
    and "fst ` set d \<subseteq> set cols \<union> set event_fields \<union> set link_fields"
  shows "grows cols df (concat_row df d)"
proof -
  note req = required_in_columns [OF assms(1)]
  have "ids (concat_row df d) = ids df @ [Str (next_id (ids df) P)]"
    using req(1) assms(3) by (simp add: ids_concat_row)
  then have "fresh_suffix (ids df) (ids (concat_row df d))"
    by (simp add: fresh_suffix_next_id)
  moreover have "built_row (rows (concat_row df d) ! i)"
    if "length (rows df) \<le> i" "i < length (rows (concat_row df d))" for i
  proof -
    from that have "i = length (rows df)" by (simp add: rows_concat_row)
    then show ?thesis using assms(2) by (simp add: rows_concat_row nth_append)
  qed
  moreover have "settled df \<longrightarrow> settled (concat_row df d)"
    using assms(4) by (simp add: settled_concat_row)
  moreover have "missing_required (concat_row df d) = None"
    using assms(1) by (rule missing_required_concat_row)
  moreover have "extends df (concat_row df d)"
    by (rule extends_concat_row)
  moreover have "existing_link_keys df \<subseteq> existing_link_keys (concat_row df d)"
    using req(2) by (rule existing_link_keys_concat_row)
  moreover have "set (columns (concat_row df d)) \<subseteq>
      set (columns df) \<union> set cols \<union> set event_fields \<union> set link_fields"
    using assms(5) by (auto simp: set_columns_concat_row)
  ultimately show ?thesis
    unfolding grows_def by blast
qed

lemma grows_add_event:
  assumes "missing_required df = None"
  shows "grows cols df (fst (add_event df cols a))"
  unfolding add_event_fst using assms
  by (rule grows_concat_row)
     (auto simp: built_row_event event_row_cells event_row_keys not_date_like_collector)

lemma grows_add_impact_link:
  assumes "missing_required df = None"
  shows "grows cols df (fst (add_impact_link df cols a))"
  unfolding add_impact_link_fst using assms
  by (rule grows_concat_row)
     (auto simp: built_row_link link_row_cells link_row_keys not_date_like_collector)

subsection \<open>The corrector\<close>

lemma fix_row_required:
  "fix_row r ''record_type'' = r ''record_type''"
  "fix_row r ''indicator_code'' = r ''indicator_code''"
  "fix_row r ID_COL = r ID_COL"
  "fix_row r ''parent_id'' = r ''parent_id''"
  "fix_row r ''related_indicator'' = r ''related_indicator''"
  by (simp_all add: fix_row_def ID_COL_def)

lemma fix_keeps:
  "event_code_to_id (fix_collector_fields df) = event_code_to_id df"
  "existing_link_keys (fix_collector_fields df) = existing_link_keys df"
  "missing_required (fix_collector_fields df) = missing_required df"
  "ids (fix_collector_fields df) = ids df"
proof -
  let ?P = "\<lambda>r::row. r ''record_type'' = Str ''event'' \<and> \<not> isna (r ''indicator_code'')"
  let ?kv = "\<lambda>r::row. (r ''indicator_code'', r ID_COL)"
  let ?Q = "\<lambda>r::row. r ''record_type'' = Str ''impact_link''"
  let ?key = "\<lambda>r::row. (py_str (r ''parent_id''), py_str (r ''related_indicator''))"
  have "map ?kv (filter ?P (map fix_row xs)) = map ?kv (filter ?P xs)" for xs
    by (induction xs) (simp_all add: fix_row_required)
  then show "event_code_to_id (fix_collector_fields df) = event_code_to_id df"
    by (simp add: event_code_to_id_def fix_collector_fields_def)
  have "map ?key (filter ?Q (map fix_row xs)) = map ?key (filter ?Q xs)" for xs
    by (induction xs) (simp_all add: fix_row_required)
  then have k: "map ?key (filter ?Q (map fix_row (rows df))) = map ?key (filter ?Q (rows df))" .
  show "existing_link_keys (fix_collector_fields df) = existing_link_keys df"
  proof (cases "''collected_by'' \<notin> set (columns df) \<or> ''collection_date'' \<notin> set (columns df)")
    case True
    then show ?thesis by (simp add: fix_collector_fields_def)
  next
    case False
    then have "fix_collector_fields df = df\<lparr>rows := map fix_row (rows df)\<rparr>"
      by (simp add: fix_collector_fields_def)
    then show ?thesis
      unfolding existing_link_keys_def using k by (simp del: set_map)
  qed
  show "missing_required (fix_collector_fields df) = missing_required df"
    by (simp add: missing_required_def)
  show "ids (fix_collector_fields df) = ids df"
    by (simp add: ids_def fix_collector_fields_def fix_row_required)
qed

subsection \<open>Step 2: the calls of maybe_add_link\<close>

lemma maybe_add_link_cases:
  "maybe_add_link cols m K df code pillar rel dir mag lag ev = df \<or>
   (\<exists>a. maybe_add_link cols m K df code pillar rel dir mag lag ev = fst (add_impact_link df cols a))"
  by (auto simp: maybe_add_link_def split: option.splits)

lemma call_maybe_add_link_cases:
  "call_maybe_add_link cols m K df c = df \<or>
   (\<exists>a. call_maybe_add_link cols m K df c = fst (add_impact_link df cols a))"
  unfolding call_maybe_add_link_def
  using maybe_add_link_cases by (cases c) simp

lemma grows_call_maybe_add_link:
  assumes "missing_required df = None"
  shows "grows cols df (call_maybe_add_link cols m K df c)"
  using call_maybe_add_link_cases [of cols m K df c] assms
  by (auto simp: grows_refl grows_add_impact_link)

lemma event_code_to_id_call_maybe_add_link:
  assumes "missing_required df = None"
  shows "event_code_to_id (call_maybe_add_link cols m K df c) = event_code_to_id df"
  using call_maybe_add_link_cases [of cols m K df c] add_impact_link_step(3) [OF assms]
  by auto

lemma key_call_maybe_add_link:
  assumes "missing_required df = None" and "m (Str code) = Some pid"
  shows "(py_str pid, rel) \<in> K \<union>
     existing_link_keys (call_maybe_add_link cols m K df (code, pillar, rel, dir, mag, lag, ev))"
proof (cases "(py_str pid, rel) \<in> K")
  case True
  then show ?thesis by simp
next
  case False
  let ?a = "\<lparr>ln_parent_id = pid, ln_pillar = pillar, ln_related_indicator = rel,
             ln_impact_direction = dir, ln_impact_magnitude = mag, ln_lag_months = lag,
             ln_evidence_basis = ev, ln_relationship_type = ''intervention'',
             ln_comparable_country = ''Ethiopia'', ln_confidence = ''medium'', ln_notes = []\<rparr>"
  from False assms(2) have
    "call_maybe_add_link cols m K df (code, pillar, rel, dir, mag, lag, ev) =
     fst (add_impact_link df cols ?a)"
    by (simp add: call_maybe_add_link_def maybe_add_link_def)
  with add_impact_link_step(7) [OF assms(1), where cols = cols and a = ?a] show ?thesis by simp
qed


lemma foldl_links_both:
  "missing_required df = None \<Longrightarrow>
   grows cols df (foldl (call_maybe_add_link cols m K) df cs) \<and>
   event_code_to_id (foldl (call_maybe_add_link cols m K) df cs) = event_code_to_id df"
proof (induction cs arbitrary: df)
  case Nil
  then show ?case by (simp add: grows_refl)
next
  case (Cons c cs)
  let ?d = "call_maybe_add_link cols m K df c"
  from Cons.prems have g: "grows cols df ?d" by (rule grows_call_maybe_add_link)
  then have r: "missing_required ?d = None" by (rule grows_required)
  from Cons.IH [OF r] g event_code_to_id_call_maybe_add_link [OF Cons.prems, of cols m K c]
  show ?case by (auto intro: grows_trans)
qed

lemma foldl_links:
  assumes "missing_required df = None"
  shows "grows cols df (foldl (call_maybe_add_link cols m K) df cs)"
    and "event_code_to_id (foldl (call_maybe_add_link cols m K) df cs) = event_code_to_id df"
  using foldl_links_both [OF assms] by simp_all

lemma foldl_links_keys:
  assumes "missing_required df = None"
    and "(code, pillar, rel, dir, mag, lag, ev) \<in> set cs" and "m (Str code) = Some pid"
  shows "(py_str pid, rel) \<in> K \<union> existing_link_keys (foldl (call_maybe_add_link cols m K) df cs)"
  using assms
proof (induction cs arbitrary: df)
  case Nil
  then show ?case by simp
next
  case (Cons c cs)
  let ?d = "call_maybe_add_link cols m K df c"
  have r: "missing_required ?d = None"
    using Cons.prems(1) grows_call_maybe_add_link grows_required by blast
  show ?case
  proof (cases "c = (code, pillar, rel, dir, mag, lag, ev)")
    case True
    with key_call_maybe_add_link [where df = df and m = m and code = code and pid = pid]
      Cons.prems(1) Cons.prems(3)
    have "(py_str pid, rel) \<in> K \<union> existing_link_keys ?d" by simp
    moreover have "existing_link_keys ?d \<subseteq> existing_link_keys (foldl (call_maybe_add_link cols m K) ?d cs)"
      using foldl_links(1) [OF r] by (simp add: grows_def)
    ultimately show ?thesis by auto
  next
    case False
    with Cons.prems(2) have "(code, pillar, rel, dir, mag, lag, ev) \<in> set cs" by simp
    from Cons.IH [OF r this Cons.prems(3)] show ?thesis by simp
  qed
qed


subsection \<open>Step 1: the two events\<close>

lemma add_if_absent:
  assumes "missing_required df = None" and "ev_indicator_code a = code"
  shows "let s = (if event_code_to_id df (Str code) = None
                  then (case add_event df cols a of (df2, evt) \<Rightarrow>
                          (df2, (event_code_to_id df)(Str code \<mapsto> getitem evt ID_COL)))
                  else (df, event_code_to_id df))
         in grows cols df (fst s) \<and> snd s = event_code_to_id (fst s) \<and>
            snd s (Str code) \<noteq> None \<and>
            (\<forall>k. event_code_to_id df k \<noteq> None \<longrightarrow> snd s k \<noteq> None) \<and>
            (event_code_to_id df (Str code) \<noteq> None \<longrightarrow> s = (df, event_code_to_id df))"
proof (cases "event_code_to_id df (Str code) = None")
  case False
  with assms(1) show ?thesis by (auto simp: grows_refl)
next
  case True
  have "add_event df cols a = (fst (add_event df cols a), snd (add_event df cols a))" by simp
  then have s: "(case add_event df cols a of (df2, evt) \<Rightarrow>
                   (df2, (event_code_to_id df)(Str code \<mapsto> getitem evt ID_COL))) =
                (fst (add_event df cols a),
                 (event_code_to_id df)(Str code \<mapsto> Str (next_id (ids df) ''EVT'')))"
    by (simp add: case_prod_unfold event_row_cells)
  show ?thesis
    using True assms(2) add_event_step(3) [OF assms(1), where cols = cols and a = a]
      grows_add_event [OF assms(1), of cols a]
    unfolding Let_def s by simp
qed

lemma event_codes:
  "ev_indicator_code interop_crossover = ''EVT_INTEROP_CROSSOVER''"
  "ev_indicator_code fayda_rollout = ''EVT_FAYDA_ROLLOUT''"
  by (simp_all add: interop_crossover_def fayda_rollout_def)

lemma add_missing_events_props:
  assumes "missing_required df = None"
  shows "grows cols df (fst (add_missing_events cols (df, event_code_to_id df)))"
    and "event_code_to_id (fst (add_missing_events cols (df, event_code_to_id df)))
           (Str ''EVT_INTEROP_CROSSOVER'') \<noteq> None"
    and "event_code_to_id (fst (add_missing_events cols (df, event_code_to_id df)))
           (Str ''EVT_FAYDA_ROLLOUT'') \<noteq> None"
proof -
  define s1 where "s1 =
    (if event_code_to_id df (Str ''EVT_INTEROP_CROSSOVER'') = None
     then (case add_event df cols interop_crossover of (df2, evt) \<Rightarrow>
             (df2, (event_code_to_id df)(Str ''EVT_INTEROP_CROSSOVER'' \<mapsto> getitem evt ID_COL)))
     else (df, event_code_to_id df))"
  define s2 where "s2 =
    (if event_code_to_id (fst s1) (Str ''EVT_FAYDA_ROLLOUT'') = None
     then (case add_event (fst s1) cols fayda_rollout of (df2, evt) \<Rightarrow>
             (df2, (event_code_to_id (fst s1))(Str ''EVT_FAYDA_ROLLOUT'' \<mapsto> getitem evt ID_COL)))
     else (fst s1, event_code_to_id (fst s1)))"
  from add_if_absent [OF assms event_codes(1), where cols = cols]
  have p1: "grows cols df (fst s1)" "snd s1 = event_code_to_id (fst s1)"
    "snd s1 (Str ''EVT_INTEROP_CROSSOVER'') \<noteq> None"
    unfolding s1_def [symmetric] Let_def by auto
  from p1(1) have r1: "missing_required (fst s1) = None" by (rule grows_required)
  from add_if_absent [OF r1 event_codes(2), where cols = cols]
  have p2: "grows cols (fst s1) (fst s2)" "snd s2 = event_code_to_id (fst s2)"
    "snd s2 (Str ''EVT_FAYDA_ROLLOUT'') \<noteq> None"
    "\<And>k. event_code_to_id (fst s1) k \<noteq> None \<Longrightarrow> snd s2 k \<noteq> None"
    unfolding s2_def [symmetric] Let_def by auto
  have s1': "s1 = (fst s1, event_code_to_id (fst s1))"
    using p1(2) by (metis prod.collapse)
  have "add_missing_events cols (df, event_code_to_id df) = s2"
    unfolding add_missing_events_def Let_def
    apply (simp only: prod.case s1_def [symmetric])
    apply (subst s1')
    apply (simp only: prod.case s2_def [symmetric])
    done
  then show "grows cols df (fst (add_missing_events cols (df, event_code_to_id df)))"
    and "event_code_to_id (fst (add_missing_events cols (df, event_code_to_id df)))
           (Str ''EVT_INTEROP_CROSSOVER'') \<noteq> None"
    and "event_code_to_id (fst (add_missing_events cols (df, event_code_to_id df)))
           (Str ''EVT_FAYDA_ROLLOUT'') \<noteq> None"
    using p1 p2 by (auto intro: grows_trans)
qed


subsection \<open>Step 2 as a whole\<close>

lemma add_missing_links_props:
  assumes "missing_required df = None"
  shows "grows cols df (add_missing_links cols df)"
    and "event_code_to_id (add_missing_links cols df) = event_code_to_id df"
    and "\<And>code pillar rel dir mag lag ev pid.
           (code, pillar, rel, dir, mag, lag, ev) \<in> set link_candidates \<Longrightarrow>
           event_code_to_id df (Str code) = Some pid \<Longrightarrow>
           (py_str pid, rel) \<in> existing_link_keys (add_missing_links cols df)"
proof -
  let ?m = "event_code_to_id df" and ?K = "existing_link_keys df"
  have eq: "add_missing_links cols df = foldl (call_maybe_add_link cols ?m ?K) df link_candidates"
    by (simp add: add_missing_links_def)
  show g: "grows cols df (add_missing_links cols df)"
    unfolding eq using assms by (rule foldl_links(1))
  show "event_code_to_id (add_missing_links cols df) = event_code_to_id df"
    unfolding eq using assms by (rule foldl_links(2))
  fix code pillar rel dir mag lag ev pid
  assume c: "(code, pillar, rel, dir, mag, lag, ev) \<in> set link_candidates"
    and m: "event_code_to_id df (Str code) = Some pid"
  have "(py_str pid, rel) \<in> ?K \<union> existing_link_keys (add_missing_links cols df)"
    unfolding eq using assms c m by (rule foldl_links_keys)
  with g show "(py_str pid, rel) \<in> existing_link_keys (add_missing_links cols df)"
    by (auto simp: grows_def)
qed


subsection \<open>The whole of enrich\<close>

lemma enrich_props:
  assumes "missing_required t = None"
  shows "grows (columns t) (fix_collector_fields t) (enrich t)"
    and "event_code_to_id (enrich t) (Str ''EVT_INTEROP_CROSSOVER'') \<noteq> None"
    and "event_code_to_id (enrich t) (Str ''EVT_FAYDA_ROLLOUT'') \<noteq> None"
    and "\<And>code pillar rel dir mag lag ev pid.
           (code, pillar, rel, dir, mag, lag, ev) \<in> set link_candidates \<Longrightarrow>
           event_code_to_id (enrich t) (Str code) = Some pid \<Longrightarrow>
           (py_str pid, rel) \<in> existing_link_keys (enrich t)"
proof -
  let ?f = "fix_collector_fields t"
  let ?e = "fst (add_missing_events (columns t) (?f, event_code_to_id ?f))"
  have en: "enrich t = add_missing_links (columns t) ?e"
    by (simp add: enrich_def Let_def)
  have rf: "missing_required ?f = None" using assms by (simp add: fix_keeps)
  note ev = add_missing_events_props [OF rf, where cols = "columns t"]
  from ev(1) have re: "missing_required ?e = None" by (rule grows_required)
  note lk = add_missing_links_props [OF re, where cols = "columns t"]
  show "grows (columns t) ?f (enrich t)"
    unfolding en using ev(1) lk(1) by (rule grows_trans)
  show "event_code_to_id (enrich t) (Str ''EVT_INTEROP_CROSSOVER'') \<noteq> None"
    unfolding en lk(2) by (rule ev(2))
  show "event_code_to_id (enrich t) (Str ''EVT_FAYDA_ROLLOUT'') \<noteq> None"
    unfolding en lk(2) by (rule ev(3))
  fix code pillar rel dir mag lag ev pid
  assume "(code, pillar, rel, dir, mag, lag, ev) \<in> set link_candidates"
    and "event_code_to_id (enrich t) (Str code) = Some pid"
  then show "(py_str pid, rel) \<in> existing_link_keys (enrich t)"
    unfolding en lk(2) by (rule lk(3))
qed


section \<open>The sample tables, evaluated\<close>

lemma required_samples:
  "missing_required sample_swapped = None"
  "missing_required sample_no_collection_date = None"
  "missing_required sample_shared_id = None"
  by (simp_all add: missing_required_def required_columns_def ID_COL_def DATE_COL_def
      sample_swapped_def sample_no_collection_date_def sample_shared_id_def)

lemma ids_enrich_sample_swapped:
  "ids (enrich sample_swapped) =
     [Str ''REC_0001'', Str ''REC_0002'', Str ''EVT_0001'', Str ''EVT_0002'',
      Str ''LNK_0001'', Str ''LNK_0002'']"
  by code_simp



lemma links_sample_shared_id:
  "map (\<lambda>r. (r ''record_id'', r ''parent_id'', r ''related_indicator''))
     (filter (\<lambda>r. r ''record_type'' = Str ''impact_link'') (rows (enrich sample_shared_id))) =
   [(Str ''LNK_0001'', Str ''EVT_0001'', Str ''ACC_MM_ACCOUNT''),
    (Str ''LNK_0002'', Str ''EVT_0001'', Str ''USG_DIGITAL_PAYMENT''),
    (Str ''LNK_0003'', Str ''EVT_0001'', Str ''USG_DIGITAL_PAYMENT''),
    (Str ''LNK_0004'', Str ''EVT_0002'', Str ''ACC_OWNERSHIP'')]"
  by code_simp

section \<open>The run as a whole\<close>

text \<open>
  C8. For a table with the required columns, the identifiers of the output are
  those of the input, in order, followed by the identifiers of the appended
  rows; the appended identifiers are pairwise distinct and none of them is an
  identifier of the input. So when the identifiers of the input are pairwise
  distinct, those of the output are.
\<close>

theorem appended_ids_fresh:
  assumes "missing_required t = None"
  shows "length (rows t) \<le> length (rows (enrich t))
     \<and> take (length (rows t)) (ids (enrich t)) = ids t
     \<and> distinct (drop (length (rows t)) (ids (enrich t)))
     \<and> set (drop (length (rows t)) (ids (enrich t))) \<inter> set (ids t) = {}
     \<and> (distinct (ids t) \<longrightarrow> distinct (ids (enrich t)))"
proof -
  from enrich_props(1) [OF assms] have "fresh_suffix (ids (fix_collector_fields t)) (ids (enrich t))"
    by (simp add: grows_def)
  then have f: "fresh_suffix (ids t) (ids (enrich t))"
    by (simp add: fix_keeps)
  have l: "length (ids t) = length (rows t)" "length (ids (enrich t)) = length (rows (enrich t))"
    by (simp_all add: ids_def)
  from f l have "length (rows t) \<le> length (rows (enrich t))"
    "take (length (rows t)) (ids (enrich t)) = ids t"
    "distinct (drop (length (rows t)) (ids (enrich t)))"
    "set (drop (length (rows t)) (ids (enrich t))) \<inter> set (ids t) = {}"
    by (simp_all add: fresh_suffix_def)
  moreover from f have "distinct (ids t) \<longrightarrow> distinct (ids (enrich t))"
    by (auto intro: fresh_suffix_distinct)
  ultimately show ?thesis by blast
qed

theorem appended_ids_fresh_witness:
  "missing_required sample_swapped = None
   \<and> ids sample_swapped = [Str ''REC_0001'', Str ''REC_0002'']
   \<and> drop 2 (ids (enrich sample_swapped)) =
       [Str ''EVT_0001'', Str ''EVT_0002'', Str ''LNK_0001'', Str ''LNK_0002'']
   \<and> distinct (ids (enrich sample_swapped))"
proof -
  have i: "ids sample_swapped = [Str ''REC_0001'', Str ''REC_0002'']"
    by (simp add: ids_def sample_swapped_def ID_COL_def)
  then have "distinct (ids sample_swapped)" by simp
  with appended_ids_fresh [OF required_samples(1)] have "distinct (ids (enrich sample_swapped))"
    by blast
  with i required_samples(1) show ?thesis
    by (simp add: ids_enrich_sample_swapped)
qed







text \<open>
  C6 on the program. The set of keys is computed once, before the five calls,
  and no call adds to it. In the sample the events \<^verbatim>\<open>EVT_TELEBIRR\<close> and
  \<^verbatim>\<open>EVT_INTEROP_CROSSOVER\<close> share the record identifier \<^verbatim>\<open>EVT_0001\<close>, the
  input has no impact link, and one run appends two impact links with the
  parent \<^verbatim>\<open>EVT_0001\<close> and the related indicator \<^verbatim>\<open>USG_DIGITAL_PAYMENT\<close>.
\<close>

theorem duplicate_link_keys_inserted:
  "missing_required sample_shared_id = None
   \<and> existing_link_keys sample_shared_id = {}
   \<and> map (\<lambda>r. (r ''record_id'', r ''parent_id'', r ''related_indicator''))
       (filter (\<lambda>r. r ''record_type'' = Str ''impact_link'') (rows (enrich sample_shared_id))) =
     [(Str ''LNK_0001'', Str ''EVT_0001'', Str ''ACC_MM_ACCOUNT''),
      (Str ''LNK_0002'', Str ''EVT_0001'', Str ''USG_DIGITAL_PAYMENT''),
      (Str ''LNK_0003'', Str ''EVT_0001'', Str ''USG_DIGITAL_PAYMENT''),
      (Str ''LNK_0004'', Str ''EVT_0002'', Str ''ACC_OWNERSHIP'')]"
  using required_samples(3) links_sample_shared_id
  by (simp add: existing_link_keys_def sample_shared_id_def)

end
